theory Spec2Isabelle
  imports Main "HOL-Library.Word"
begin

unbundle bit_operations_syntax

section \<open>raw\_convert.py: PNG/JPEG to XRGB8888 raw\<close>

text \<open>
  The script \<^verbatim>\<open>src/tools/mkwallpaper/raw_convert.py\<close> decodes an image with Pillow,
  optionally resizes it, and writes one little-endian 32-bit word \<^verbatim>\<open>0x00RRGGBB\<close> per
  pixel, row by row. The model below follows the script line by line. What the script
  takes from outside (the Pillow decoder and resampler, the builtin \<^verbatim>\<open>int()\<close>, the file
  system and the two output streams) is explicit: the library functions are parameters,
  the file system and the streams are fields of a state record that every operation
  returns updated.
\<close>

subsection \<open>Data\<close>

type_synonym byte = "8 word"
type_synonym path = string

text \<open>A pixel of a Pillow image in mode \<^verbatim>\<open>"RGB"\<close>: three 8-bit channels.\<close>

type_synonym rgb = "byte \<times> byte \<times> byte"

text \<open>
  A decoded image: \<^verbatim>\<open>img.size\<close> is \<open>(img_width, img_height)\<close> and the pixel access
  object \<^verbatim>\<open>img.load()\<close> is read through \<open>img_data x y\<close>.
\<close>

record image =
  img_width :: nat
  img_height :: nat
  img_data :: "nat \<Rightarrow> nat \<Rightarrow> rgb"

text \<open>The exceptions that can end the script.\<close>

datatype error =
    ImportError
  | IndexError
  | ValueError
  | FileNotFoundError
  | UnidentifiedImageError
  | OSError
  | StructError

text \<open>
  The three texts the script prints, with the values their format strings insert:
  the import guard's error (line 21), the usage line with \<^verbatim>\<open>sys.argv[0]\<close> (line 46) and
  the summary with width, height, output path and byte count (line 41).
\<close>

datatype message =
    PillowMissing
  | Usage string
  | Done nat nat path nat

text \<open>
  How a run ends: it falls off the end, calls \<^verbatim>\<open>sys.exit(n)\<close>, or dies of an uncaught
  exception. The interpreter turns these into the exit status of the process.
\<close>

datatype outcome = Returned | SysExit int | Raised error

fun exit_status :: "outcome \<Rightarrow> int" where
  "exit_status Returned = 0"
| "exit_status (SysExit n) = n"
| "exit_status (Raised e) = 1"

text \<open>
  The part of Pillow the script calls. \<open>decode_RGB\<close> is
  \<^verbatim>\<open>Image.open(...).convert("RGB")\<close> on the content of a file, \<open>resize_LANCZOS\<close> is
  \<^verbatim>\<open>img.resize((width, height), Image.LANCZOS)\<close>. Both may raise.
\<close>

record pillow =
  decode_RGB :: "byte list \<Rightarrow> error + image"
  resize_LANCZOS :: "image \<Rightarrow> int \<times> int \<Rightarrow> error + image"

text \<open>
  The world the process runs in: the files by path, which paths \<^verbatim>\<open>open(p, "wb")\<close>
  succeeds on, and what the script has printed on the two streams. The traceback the
  interpreter itself prints for an uncaught exception is not recorded.
\<close>

record world =
  files :: "path \<Rightarrow> byte list option"
  writable :: "path \<Rightarrow> bool"
  stdout :: "message list"
  stderr :: "message list"

subsection \<open>The pixel word\<close>

text \<open>Line 39, on Python's unbounded integers: \<^verbatim>\<open>(r << 16) | (g << 8) | b\<close>.\<close>

definition xrgb8888 :: "int \<Rightarrow> int \<Rightarrow> int \<Rightarrow> int" where
  "xrgb8888 r g b = (push_bit 16 r OR push_bit 8 g) OR b"

text \<open>
  \<^verbatim>\<open>struct.pack("<I", v)\<close>: four bytes, least significant first; a value outside
  \<open>0 .. 2^32 - 1\<close> raises \<^verbatim>\<open>struct.error\<close>.
\<close>

definition struct_pack_I :: "int \<Rightarrow> error + byte list" where
  "struct_pack_I v =
     (if 0 \<le> v \<and> v < 2 ^ 32
      then Inr [word_of_int v, word_of_int (drop_bit 8 v),
                word_of_int (drop_bit 16 v), word_of_int (drop_bit 24 v)]
      else Inl StructError)"

text \<open>\<^verbatim>\<open>pixels[x, y]\<close>: a coordinate outside the image raises \<^verbatim>\<open>IndexError\<close>.\<close>

definition getitem :: "image \<Rightarrow> nat \<times> nat \<Rightarrow> error + rgb" where
  "getitem img xy =
     (case xy of (x, y) \<Rightarrow>
        if x < img_width img \<and> y < img_height img then Inr (img_data img x y)
        else Inl IndexError)"

subsection \<open>convert\<close>

text \<open>
  Line 26. A missing input file raises before Pillow sees any byte; otherwise the
  decoder decides.
\<close>

definition Image_open_RGB :: "pillow \<Rightarrow> world \<Rightarrow> path \<Rightarrow> error + image" where
  "Image_open_RGB pil s inpath =
     (case files s inpath of
        None \<Rightarrow> Inl FileNotFoundError
      | Some bs \<Rightarrow> decode_RGB pil bs)"

text \<open>
  Lines 26 to 29: the image the loops will walk. \<^verbatim>\<open>if width and height\<close> is Python's
  truth test: \<^verbatim>\<open>None\<close> and \<open>0\<close> are both false.
\<close>

definition load_image ::
  "pillow \<Rightarrow> world \<Rightarrow> path \<Rightarrow> int option \<Rightarrow> int option \<Rightarrow> error + image" where
  "load_image pil s inpath width height =
     (case Image_open_RGB pil s inpath of
        Inl e \<Rightarrow> Inl e
      | Inr img \<Rightarrow>
          (case (width, height) of
             (Some w, Some h) \<Rightarrow>
               if w \<noteq> 0 \<and> h \<noteq> 0 then resize_LANCZOS pil img (w, h) else Inr img
           | _ \<Rightarrow> Inr img))"

text \<open>
  The truth test of line 28 by itself, \<^verbatim>\<open>width and height\<close>: both values are there
  and neither is 0. This is the guard under which \<open>load_image\<close> calls the resampler.
\<close>

definition resize_requested :: "int option \<Rightarrow> int option \<Rightarrow> bool" where
  "resize_requested width height =
     (case (width, height) of
        (Some w, Some h) \<Rightarrow> w \<noteq> 0 \<and> h \<noteq> 0
      | _ \<Rightarrow> False)"

text \<open>
  Lines 36 to 39, the inner loop over the columns \<open>xs\<close> of row \<open>y\<close>. \<open>f\<close> is what
  the open file holds so far; an exception leaves in the file what was written before it.
\<close>

fun write_row :: "image \<Rightarrow> nat \<Rightarrow> nat list \<Rightarrow> byte list \<Rightarrow> error option \<times> byte list" where
  "write_row img y [] f = (None, f)"
| "write_row img y (x # xs) f =
     (case getitem img (x, y) of
        Inl e \<Rightarrow> (Some e, f)
      | Inr (r, g, b) \<Rightarrow>
          (case struct_pack_I (xrgb8888 (uint r) (uint g) (uint b)) of
             Inl e \<Rightarrow> (Some e, f)
           | Inr bs \<Rightarrow> write_row img y xs (f @ bs)))"

text \<open>Lines 35 to 39, the outer loop over the rows \<open>ys\<close>; each row runs \<open>range(w)\<close>.\<close>

fun write_rows :: "image \<Rightarrow> nat \<Rightarrow> nat list \<Rightarrow> byte list \<Rightarrow> error option \<times> byte list" where
  "write_rows img w [] f = (None, f)"
| "write_rows img w (y # ys) f =
     (case write_row img y [0..<w] f of
        (Some e, f') \<Rightarrow> (Some e, f')
      | (None, f') \<Rightarrow> write_rows img w ys f')"

text \<open>
  Lines 25 to 41. \<^verbatim>\<open>open(outpath, "wb")\<close> creates or empties the file; the
  \<^verbatim>\<open>with\<close> block closes it whether the loops finish or raise, and the summary is
  printed on standard output only after they finish.
\<close>

definition convert ::
  "pillow \<Rightarrow> path \<Rightarrow> path \<Rightarrow> int option \<Rightarrow> int option \<Rightarrow> world \<Rightarrow> outcome \<times> world" where
  "convert pil inpath outpath width height s =
     (case load_image pil s inpath width height of
        Inl e \<Rightarrow> (Raised e, s)
      | Inr img \<Rightarrow>
          (let w = img_width img; h = img_height img in
           if \<not> writable s outpath then (Raised OSError, s)
           else
             (case write_rows img w [0..<h] [] of
                (Some e, bs) \<Rightarrow> (Raised e, s\<lparr>files := (files s)(outpath \<mapsto> bs)\<rparr>)
              | (None, bs) \<Rightarrow>
                  (Returned,
                   s\<lparr>files := (files s)(outpath \<mapsto> bs),
                     stdout := stdout s @ [Done w h outpath (w * h * 4)]\<rparr>))))"

subsection \<open>The command line\<close>

text \<open>
  Lines 49 and 50: \<^verbatim>\<open>int(sys.argv[i]) if len(sys.argv) > 4 else None\<close>. The builtin
  \<^verbatim>\<open>int()\<close> is the parameter \<open>py_int\<close>: \<open>None\<close> on a text it does not accept,
  where Python raises \<^verbatim>\<open>ValueError\<close>.
\<close>

definition int_arg :: "(string \<Rightarrow> int option) \<Rightarrow> string list \<Rightarrow> nat \<Rightarrow> error + int option" where
  "int_arg py_int argv i =
     (if length argv > 4
      then (case py_int (argv ! i) of None \<Rightarrow> Inl ValueError | Some n \<Rightarrow> Inr (Some n))
      else Inr None)"

text \<open>
  Lines 44 to 52, the \<^verbatim>\<open>__main__\<close> block. The usage line is printed with a plain
  \<^verbatim>\<open>print(...)\<close>, which writes to standard output. \<^verbatim>\<open>sys.argv[0]\<close> on an empty
  argument vector raises.
\<close>

definition main ::
  "(string \<Rightarrow> int option) \<Rightarrow> pillow \<Rightarrow> string list \<Rightarrow> world \<Rightarrow> outcome \<times> world" where
  "main py_int pil argv s =
     (if length argv < 3 then
        (case argv of
           [] \<Rightarrow> (Raised IndexError, s)
         | prog # _ \<Rightarrow> (SysExit 1, s\<lparr>stdout := stdout s @ [Usage prog]\<rparr>))
      else
        (case int_arg py_int argv 3 of
           Inl e \<Rightarrow> (Raised e, s)
         | Inr w \<Rightarrow>
             (case int_arg py_int argv 4 of
                Inl e \<Rightarrow> (Raised e, s)
              | Inr h \<Rightarrow> convert pil (argv ! 1) (argv ! 2) w h s)))"

text \<open>
  The whole script, lines 15 to 52. Lines 18 to 22 run first: when Pillow cannot be
  imported (\<open>None\<close>) the error goes to standard error and the process exits with 1.
\<close>

definition script ::
  "(string \<Rightarrow> int option) \<Rightarrow> pillow option \<Rightarrow> string list \<Rightarrow> world \<Rightarrow> outcome \<times> world" where
  "script py_int lib argv s =
     (case lib of
        None \<Rightarrow> (SysExit 1, s\<lparr>stderr := stderr s @ [PillowMissing]\<rparr>)
      | Some pil \<Rightarrow> main py_int pil argv s)"

subsection \<open>The output format, stated apart from the loops\<close>

text \<open>
  The four bytes of one pixel in XRGB8888, least significant byte first: blue, green,
  red, and a zero top byte.
\<close>

definition pixel_bytes :: "rgb \<Rightarrow> byte list" where
  "pixel_bytes p = (case p of (r, g, b) \<Rightarrow> [b, g, r, 0])"

text \<open>The pixels of an image in row-major order: row 0 first, each row left to right.\<close>

definition row_of :: "image \<Rightarrow> nat \<Rightarrow> rgb list" where
  "row_of img y = map (\<lambda>x. img_data img x y) [0..<img_width img]"

definition pixels_of :: "image \<Rightarrow> rgb list" where
  "pixels_of img = concat (map (row_of img) [0..<img_height img])"

text \<open>The output buffer: one word per pixel, no header, no padding.\<close>

definition raw_bytes :: "image \<Rightarrow> byte list" where
  "raw_bytes img = concat (map pixel_bytes (pixels_of img))"

text \<open>
  Reading a buffer back: consecutive little-endian 32-bit words (a tail shorter than four
  bytes is no word), and the three channels held in the low 24 bits of a word.
\<close>

definition le32 :: "byte \<Rightarrow> byte \<Rightarrow> byte \<Rightarrow> byte \<Rightarrow> 32 word" where
  "le32 b0 b1 b2 b3 =
     ucast b0 OR push_bit 8 (ucast b1) OR push_bit 16 (ucast b2) OR push_bit 24 (ucast b3)"

fun read_words :: "byte list \<Rightarrow> 32 word list" where
  "read_words (b0 # b1 # b2 # b3 # bs) = le32 b0 b1 b2 b3 # read_words bs"
| "read_words _ = []"

definition rgb_of_word :: "32 word \<Rightarrow> rgb" where
  "rgb_of_word v = (ucast (drop_bit 16 v), ucast (drop_bit 8 v), ucast v)"

subsection \<open>A small stand-in for the libraries, to run the model on\<close>

text \<open>
  A toy image format and resampler in Pillow's place: a file is a width byte, a height
  byte and then one red, green and blue byte per pixel, row by row; resizing picks the
  nearest source pixel and refuses sizes below 1.
\<close>

definition toy_decode :: "byte list \<Rightarrow> error + image" where
  "toy_decode bs =
     (case bs of
        w # h # body \<Rightarrow>
          if length body = 3 * (unat w * unat h)
          then Inr \<lparr>img_width = unat w, img_height = unat h,
                    img_data = (\<lambda>x y. (body ! (3 * (y * unat w + x)),
                                         body ! (3 * (y * unat w + x) + 1),
                                         body ! (3 * (y * unat w + x) + 2)))\<rparr>
          else Inl UnidentifiedImageError
      | _ \<Rightarrow> Inl UnidentifiedImageError)"

definition toy_resize :: "image \<Rightarrow> int \<times> int \<Rightarrow> error + image" where
  "toy_resize img wh =
     (case wh of (w, h) \<Rightarrow>
        if w < 1 \<or> h < 1 then Inl ValueError
        else Inr \<lparr>img_width = nat w, img_height = nat h,
                  img_data = (\<lambda>x y. img_data img (x * img_width img div nat w)
                                                  (y * img_height img div nat h))\<rparr>)"

definition toy_pillow :: pillow where
  "toy_pillow = \<lparr>decode_RGB = toy_decode, resize_LANCZOS = toy_resize\<rparr>"

text \<open>A stand-in for \<^verbatim>\<open>int()\<close>: plain ASCII digits only.\<close>

definition toy_int :: "string \<Rightarrow> int option" where
  "toy_int t =
     (if t \<noteq> [] \<and> list_all (\<lambda>c. 48 \<le> (of_char c :: nat) \<and> (of_char c :: nat) \<le> 57) t
      then Some (foldl (\<lambda>n c. 10 * n + (int (of_char c) - 48)) 0 t)
      else None)"

text \<open>
  Three files in the toy format: a 2 by 2 all-red image, a 1 by 1 image, and a 2 by 2
  image whose four pixels differ.
\<close>

definition red2x2 :: "byte list" where
  "red2x2 = [2, 2, 255, 0, 0, 255, 0, 0, 255, 0, 0, 255, 0, 0]"

definition dot1x1 :: "byte list" where
  "dot1x1 = [1, 1, 18, 52, 86]"

definition grid2x2 :: "byte list" where
  "grid2x2 = [2, 2, 1, 2, 3, 4, 5, 6, 7, 8, 9, 10, 11, 12]"

text \<open>A world holding the three files, where every path can be opened for writing.\<close>

definition toy_world :: world where
  "toy_world =
     \<lparr>files = [''red.toy'' \<mapsto> red2x2, ''dot.toy'' \<mapsto> dot1x1, ''grid.toy'' \<mapsto> grid2x2],
      writable = (\<lambda>p. True), stdout = [], stderr = []\<rparr>"

section \<open>Supporting lemmas\<close>

subsection \<open>One pixel\<close>

lemma bit_byte_less: "bit (c :: byte) n \<Longrightarrow> n < 8"
  by (drule bit_imp_le_length) simp

lemma xrgb_nonneg: "0 \<le> xrgb8888 (uint (r :: byte)) (uint (g :: byte)) (uint (b :: byte))"
  by (simp add: xrgb8888_def)

lemma xrgb_less: "xrgb8888 (uint (r :: byte)) (uint (g :: byte)) (uint (b :: byte)) < 2 ^ 24"
proof -
  have r: "uint r < 2 ^ 8" and g: "uint g < 2 ^ 8" and b: "uint b < 2 ^ 8"
    using uint_bounded [of r] uint_bounded [of g] uint_bounded [of b] by simp_all
  have 1: "push_bit 16 (uint r) < 2 ^ 24"
    using r by (simp add: push_bit_eq_mult)
  have 2: "push_bit 8 (uint g) < 2 ^ 24"
    using g by (simp add: push_bit_eq_mult)
  have 3: "uint b < 2 ^ 24"
    using b by simp
  have 4: "push_bit 16 (uint r) OR push_bit 8 (uint g) < 2 ^ 24"
    by (rule OR_upper [OF _ 1 2]) simp
  have "(push_bit 16 (uint r) OR push_bit 8 (uint g)) OR uint b < 2 ^ 24"
    by (rule OR_upper [OF _ 4 3]) simp
  then show ?thesis by (simp add: xrgb8888_def)
qed

lemma xrgb_byte0:
  "(word_of_int (xrgb8888 (uint (r :: byte)) (uint (g :: byte)) (uint (b :: byte))) :: byte) = b"
  by (rule bit_word_eqI) (auto simp add: xrgb8888_def bit_simps)

lemma xrgb_byte1:
  "(word_of_int (drop_bit 8 (xrgb8888 (uint (r :: byte)) (uint (g :: byte)) (uint (b :: byte)))) :: byte) = g"
  by (rule bit_word_eqI) (auto simp add: xrgb8888_def bit_simps dest: bit_byte_less)

lemma xrgb_byte2:
  "(word_of_int (drop_bit 16 (xrgb8888 (uint (r :: byte)) (uint (g :: byte)) (uint (b :: byte)))) :: byte) = r"
  by (rule bit_word_eqI) (auto simp add: xrgb8888_def bit_simps dest: bit_byte_less)

lemma xrgb_byte3:
  "(word_of_int (drop_bit 24 (xrgb8888 (uint (r :: byte)) (uint (g :: byte)) (uint (b :: byte)))) :: byte) = 0"
  by (rule bit_word_eqI) (auto simp add: xrgb8888_def bit_simps dest: bit_byte_less)

lemma struct_pack_pixel:
  "struct_pack_I (xrgb8888 (uint r) (uint g) (uint b)) = Inr (pixel_bytes (r, g, b))"
proof -
  have "xrgb8888 (uint r) (uint g) (uint b) < 2 ^ 32"
    using xrgb_less [of r g b] by simp
  then show ?thesis
    by (simp add: struct_pack_I_def pixel_bytes_def xrgb_nonneg
          xrgb_byte0 xrgb_byte1 xrgb_byte2 xrgb_byte3)
qed

lemma uint_byte_of_int: "0 \<le> c \<Longrightarrow> c \<le> 255 \<Longrightarrow> uint (word_of_int c :: byte) = c"
  by (simp add: uint_word_of_int)

lemma struct_pack_channels:
  assumes "0 \<le> r" "r \<le> 255" "0 \<le> g" "g \<le> 255" "0 \<le> b" "b \<le> 255"
  shows "struct_pack_I (xrgb8888 r g b) =
           Inr [word_of_int b, word_of_int g, word_of_int r, 0]"
  using struct_pack_pixel [of "word_of_int r" "word_of_int g" "word_of_int b"] assms
  by (simp add: uint_byte_of_int pixel_bytes_def)

lemma length_pixel_bytes: "length (pixel_bytes p) = 4"
  by (cases p) (simp add: pixel_bytes_def)

subsection \<open>The loops never raise and write the output format\<close>

lemma write_row_ok:
  "\<forall>x\<in>set xs. x < img_width img \<Longrightarrow> y < img_height img \<Longrightarrow>
   write_row img y xs f = (None, f @ concat (map (\<lambda>x. pixel_bytes (img_data img x y)) xs))"
proof (induction xs arbitrary: f)
  case Nil
  then show ?case by simp
next
  case (Cons x xs)
  obtain r g b where p: "img_data img x y = (r, g, b)"
    by (cases "img_data img x y") auto
  from Cons.prems have "getitem img (x, y) = Inr (r, g, b)"
    by (simp add: getitem_def p)
  then show ?case
    using Cons by (simp add: struct_pack_pixel p)
qed

lemma write_rows_ok:
  "\<forall>y\<in>set ys. y < img_height img \<Longrightarrow>
   write_rows img (img_width img) ys f =
     (None, f @ concat (map pixel_bytes (concat (map (row_of img) ys))))"
proof (induction ys arbitrary: f)
  case Nil
  then show ?case by simp
next
  case (Cons y ys)
  have "write_row img y [0..<img_width img] f =
          (None, f @ concat (map pixel_bytes (row_of img y)))"
    using Cons.prems by (simp add: write_row_ok row_of_def comp_def)
  then show ?case
    using Cons by simp
qed

lemma write_rows_all:
  "write_rows img (img_width img) [0..<img_height img] [] = (None, raw_bytes img)"
  by (simp add: write_rows_ok raw_bytes_def pixels_of_def)

lemma convert_eq:
  "convert pil inpath outpath width height s =
     (case load_image pil s inpath width height of
        Inl e \<Rightarrow> (Raised e, s)
      | Inr img \<Rightarrow>
          if writable s outpath
          then (Returned,
                s\<lparr>files := (files s)(outpath \<mapsto> raw_bytes img),
                  stdout := stdout s @
                    [Done (img_width img) (img_height img) outpath
                       (img_width img * img_height img * 4)]\<rparr>)
          else (Raised OSError, s))"
  by (simp add: convert_def Let_def write_rows_all split: sum.splits)

lemma convert_Returned:
  assumes "convert pil inpath outpath width height s = (Returned, s')"
  obtains img where
    "load_image pil s inpath width height = Inr img"
    "writable s outpath"
    "s' = s\<lparr>files := (files s)(outpath \<mapsto> raw_bytes img),
            stdout := stdout s @
              [Done (img_width img) (img_height img) outpath
                 (img_width img * img_height img * 4)]\<rparr>"
  using assms unfolding convert_eq
  by (auto split: sum.splits if_splits)

lemma convert_Returned_file:
  assumes "convert pil inpath outpath width height s = (Returned, s')"
  obtains img where
    "load_image pil s inpath width height = Inr img"
    "files s' outpath = Some (raw_bytes img)"
proof -
  from assms obtain img where
    "load_image pil s inpath width height = Inr img"
    "s' = s\<lparr>files := (files s)(outpath \<mapsto> raw_bytes img),
            stdout := stdout s @
              [Done (img_width img) (img_height img) outpath
                 (img_width img * img_height img * 4)]\<rparr>"
    by (rule convert_Returned)
  then show thesis
    by (intro that [of img]) simp_all
qed

subsection \<open>Lists of equal-sized chunks\<close>

lemma length_concat_const:
  "\<forall>xs\<in>set xss. length xs = n \<Longrightarrow> length (concat xss) = length xss * n"
  by (induction xss) simp_all

lemma nth_concat_const:
  "\<forall>xs\<in>set xss. length xs = n \<Longrightarrow> i < length xss \<Longrightarrow> j < n \<Longrightarrow>
   concat xss ! (i * n + j) = xss ! i ! j"
proof (induction xss arbitrary: i)
  case Nil
  then show ?case by simp
next
  case (Cons xs xss)
  show ?case
  proof (cases i)
    case 0
    with Cons.prems show ?thesis by (simp add: nth_append)
  next
    case (Suc k)
    with Cons.prems have "concat xss ! (k * n + j) = xss ! k ! j"
      by (intro Cons.IH) simp_all
    moreover have "n + k * n + j - n = k * n + j" by simp
    ultimately show ?thesis
      using Cons.prems Suc by (simp add: nth_append)
  qed
qed

lemma chunk_concat_const:
  "\<forall>xs\<in>set xss. length xs = n \<Longrightarrow> i < length xss \<Longrightarrow>
   take n (drop (n * i) (concat xss)) = xss ! i"
proof (induction xss arbitrary: i)
  case Nil
  then show ?case by simp
next
  case (Cons xs xss)
  show ?case
  proof (cases i)
    case 0
    with Cons.prems show ?thesis by simp
  next
    case (Suc k)
    with Cons.prems have "take n (drop (n * k) (concat xss)) = xss ! k"
      by (intro Cons.IH) simp_all
    then show ?thesis
      using Cons.prems Suc by simp
  qed
qed

lemma length_row_of: "length (row_of img y) = img_width img"
  by (simp add: row_of_def)

lemma length_pixels_of: "length (pixels_of img) = img_height img * img_width img"
  unfolding pixels_of_def
  by (subst length_concat_const [where n = "img_width img"]) (simp_all add: length_row_of)

lemma nth_pixels_of:
  "x < img_width img \<Longrightarrow> y < img_height img \<Longrightarrow>
   pixels_of img ! (y * img_width img + x) = img_data img x y"
  unfolding pixels_of_def
  by (subst nth_concat_const [where n = "img_width img"])
     (simp_all add: length_row_of, simp add: row_of_def)

lemma length_raw_bytes: "length (raw_bytes img) = img_width img * img_height img * 4"
  unfolding raw_bytes_def
  by (subst length_concat_const [where n = 4])
     (simp_all add: length_pixel_bytes length_pixels_of)

lemma pixel_index_less:
  "x < (w :: nat) \<Longrightarrow> y < h \<Longrightarrow> y * w + x < h * w"
proof -
  assume x: "x < w" and y: "y < h"
  have "y * w + x < y * w + w" using x by simp
  also have "\<dots> = Suc y * w" by simp
  also have "\<dots> \<le> h * w" using y by (intro mult_le_mono1) simp
  finally show ?thesis .
qed

lemma raw_bytes_chunk:
  assumes "x < img_width img" "y < img_height img"
  shows "take 4 (drop (4 * (y * img_width img + x)) (raw_bytes img)) =
           pixel_bytes (img_data img x y)"
proof -
  have i: "y * img_width img + x < length (pixels_of img)"
    using assms by (simp add: length_pixels_of pixel_index_less)
  have "take 4 (drop (4 * (y * img_width img + x)) (raw_bytes img)) =
          map pixel_bytes (pixels_of img) ! (y * img_width img + x)"
    unfolding raw_bytes_def
    by (rule chunk_concat_const) (use i in \<open>simp_all add: length_pixel_bytes\<close>)
  then show ?thesis
    using i assms by (simp add: nth_pixels_of)
qed

subsection \<open>Reading words back\<close>

lemma mask24: "(0xFFFFFF :: 32 word) = mask 24"
  by (simp add: mask_eq_exp_minus_1)

lemma le32_uint: "uint (le32 b g r 0) = xrgb8888 (uint r) (uint g) (uint b)"
  by (rule bit_eqI) (auto simp add: le32_def xrgb8888_def bit_simps dest: bit_byte_less)

lemma le32_top: "drop_bit 24 (le32 b g r 0) = 0"
  by (rule bit_word_eqI) (auto simp add: le32_def bit_simps dest: bit_byte_less)

lemma le32_mask: "le32 b g r 0 AND 0xFFFFFF = le32 b g r 0"
  unfolding mask24
  by (rule bit_word_eqI) (auto simp add: le32_def bit_simps dest: bit_byte_less)

lemma le32_rgb: "rgb_of_word (le32 b g r 0) = (r, g, b)"
  unfolding rgb_of_word_def le32_def
  by (intro prod_eqI; simp)
     (rule bit_word_eqI; auto simp add: bit_simps dest: bit_byte_less)+

lemma read_words_pixels:
  "read_words (concat (map pixel_bytes ps)) = map (\<lambda>(r, g, b). le32 b g r 0) ps"
  by (induction ps) (auto simp add: pixel_bytes_def)

lemma rgb_of_packed:
  "map (\<lambda>v. rgb_of_word (v AND 0xFFFFFF)) (map (\<lambda>(r, g, b). le32 b g r 0) ps) = ps"
  by (induction ps) (auto simp add: le32_mask le32_rgb)

lemma read_words_raw_rgb:
  "map (\<lambda>v. rgb_of_word (v AND 0xFFFFFF)) (read_words (raw_bytes img)) = pixels_of img"
  unfolding raw_bytes_def read_words_pixels
  by (rule rgb_of_packed)

lemma read_words_raw_top:
  "v \<in> set (read_words (raw_bytes img)) \<Longrightarrow> drop_bit 24 v = 0"
  unfolding raw_bytes_def read_words_pixels
  by (auto simp add: le32_top)

lemma length_read_words_raw:
  "length (read_words (raw_bytes img)) = img_width img * img_height img"
  unfolding raw_bytes_def read_words_pixels
  by (simp add: length_pixels_of mult.commute)

subsection \<open>Runs of the stand-in\<close>

lemma toy_load_dot:
  "load_image toy_pillow toy_world ''dot.toy'' None None = Inr img \<Longrightarrow>
   img_width img = 1 \<and> img_height img = 1"
  by (auto simp add: load_image_def Image_open_RGB_def toy_pillow_def toy_world_def
        toy_decode_def dot1x1_def)

lemma toy_run_dot:
  "fst (convert toy_pillow ''dot.toy'' ''out.raw'' None None toy_world) = Returned"
  by code_simp

lemma toy_run_red:
  "fst (convert toy_pillow ''red.toy'' ''out.raw'' None None toy_world) = Returned"
  by code_simp

lemma toy_run_red_file:
  "files (snd (convert toy_pillow ''red.toy'' ''out.raw'' None None toy_world)) ''out.raw'' =
     Some [0, 0, 255, 0, 0, 0, 255, 0, 0, 0, 255, 0, 0, 0, 255, 0]"
  by code_simp

lemma toy_run_grid:
  "fst (convert toy_pillow ''grid.toy'' ''out.raw'' None None toy_world) = Returned"
  by code_simp

lemma toy_run_grid_file:
  "files (snd (convert toy_pillow ''grid.toy'' ''out.raw'' None None toy_world)) ''out.raw'' =
     Some [3, 2, 1, 0, 6, 5, 4, 0, 9, 8, 7, 0, 12, 11, 10, 0]"
  by code_simp

lemma toy_run_wide:
  "fst (convert toy_pillow ''dot.toy'' ''out.raw'' (Some 3) (Some 1) toy_world) = Returned"
  by code_simp

lemma toy_run_wide_file:
  "files (snd (convert toy_pillow ''dot.toy'' ''out.raw'' (Some 3) (Some 1) toy_world))
     ''out.raw'' = Some [86, 52, 18, 0, 86, 52, 18, 0, 86, 52, 18, 0]"
  by code_simp

lemma toy_run_wide_again:
  "fst (convert toy_pillow ''dot.toy'' ''out.raw'' (Some 3) (Some 1)
          (toy_world\<lparr>files := (files toy_world)(''out.raw'' \<mapsto> [7, 7]),
                      stdout := [Usage ''earlier'']\<rparr>)) = Returned"
  by code_simp

lemma run_collapse: "fst r = Returned \<Longrightarrow> r = (Returned, snd r)"
  by (cases r) simp

lemma load_image_cong:
  "files s1 inpath = files s2 inpath \<Longrightarrow>
   load_image pil s1 inpath width height = load_image pil s2 inpath width height"
  by (simp add: load_image_def Image_open_RGB_def)

lemma load_image_zero:
  "w = 0 \<or> h = 0 \<Longrightarrow>
   load_image pil s inpath (Some w) (Some h) = load_image pil s inpath None None"
  by (auto simp add: load_image_def split: sum.splits)

lemma load_image_source:
  "Image_open_RGB pil s inpath = Inr img \<Longrightarrow> load_image pil s inpath None None = Inr img"
  by (simp add: load_image_def)

lemma load_image_skipped:
  "Image_open_RGB pil s inpath = Inr src \<Longrightarrow> \<not> resize_requested width height \<Longrightarrow>
   load_image pil s inpath width height = Inr src"
  by (auto simp add: load_image_def resize_requested_def split: option.splits)

lemma load_image_resized:
  "Image_open_RGB pil s inpath = Inr src \<Longrightarrow> resize_requested (Some w) (Some h) \<Longrightarrow>
   load_image pil s inpath (Some w) (Some h) = resize_LANCZOS pil src (w, h)"
  by (simp add: load_image_def resize_requested_def)

lemma int_arg_short: "length argv \<le> 4 \<Longrightarrow> int_arg py_int argv i = Inr None"
  by (simp add: int_arg_def)

lemma int_arg_long:
  "4 < length argv \<Longrightarrow> int_arg py_int argv i = Inr v \<Longrightarrow> \<exists>n. v = Some n"
  by (cases "py_int (argv ! i)") (auto simp add: int_arg_def)

section \<open>The claims\<close>

text \<open>
  C1. Whenever \<open>convert\<close> completes, the file at the output path holds exactly
  \<open>W * H * 4\<close> bytes, \<open>W\<close> and \<open>H\<close> being the size of the image after the optional
  resize; a 1 by 1 image gives a file of exactly 4 bytes.
\<close>

theorem output_length:
  assumes "convert pil inpath outpath width height s = (Returned, s')"
  shows "\<exists>img bs. load_image pil s inpath width height = Inr img \<and>
           files s' outpath = Some bs \<and>
           length bs = img_width img * img_height img * 4 \<and>
           (img_width img = 1 \<and> img_height img = 1 \<longrightarrow> length bs = 4)"
proof -
  from assms obtain img where
    img: "load_image pil s inpath width height = Inr img" and
    s': "s' = s\<lparr>files := (files s)(outpath \<mapsto> raw_bytes img),
              stdout := stdout s @
                [Done (img_width img) (img_height img) outpath
                   (img_width img * img_height img * 4)]\<rparr>"
    by (rule convert_Returned)
  have "files s' outpath = Some (raw_bytes img)"
    by (simp add: s')
  moreover have "length (raw_bytes img) = img_width img * img_height img * 4"
    by (rule length_raw_bytes)
  ultimately show ?thesis
    using img by auto
qed

theorem output_length_witness:
  "fst (convert toy_pillow ''dot.toy'' ''out.raw'' None None toy_world) = Returned \<and>
   (\<exists>bs. files (snd (convert toy_pillow ''dot.toy'' ''out.raw'' None None toy_world))
           ''out.raw'' = Some bs \<and> length bs = 4)"
proof -
  let ?run = "convert toy_pillow ''dot.toy'' ''out.raw'' None None toy_world"
  have run: "?run = (Returned, snd ?run)"
    by (rule run_collapse [OF toy_run_dot])
  from output_length [OF run] obtain img bs where
    "load_image toy_pillow toy_world ''dot.toy'' None None = Inr img"
    "files (snd ?run) ''out.raw'' = Some bs"
    "img_width img = 1 \<and> img_height img = 1 \<longrightarrow> length bs = 4"
    by blast
  then show ?thesis
    using toy_load_dot toy_run_dot by blast
qed

text \<open>
  C3. The words are laid out in row-major order: the rows are written top to bottom and
  each row left to right, so the word of pixel \<open>(x, y)\<close> of a \<open>W\<close> by \<open>H\<close> image is
  the four bytes of the file from offset \<open>4 * (y * W + x)\<close> on.
\<close>

theorem row_major_layout:
  assumes "convert pil inpath outpath width height s = (Returned, s')"
  shows "\<exists>img bs. load_image pil s inpath width height = Inr img \<and>
           files s' outpath = Some bs \<and>
           write_rows img (img_width img) [0..<img_height img] [] = (None, bs) \<and>
           (\<forall>y < img_height img. \<forall>x < img_width img.
              4 * (y * img_width img + x) + 4 \<le> length bs \<and>
              take 4 (drop (4 * (y * img_width img + x)) bs) =
                pixel_bytes (img_data img x y))"
proof -
  from assms obtain img where
    img: "load_image pil s inpath width height = Inr img" and
    s': "s' = s\<lparr>files := (files s)(outpath \<mapsto> raw_bytes img),
              stdout := stdout s @
                [Done (img_width img) (img_height img) outpath
                   (img_width img * img_height img * 4)]\<rparr>"
    by (rule convert_Returned)
  have out: "files s' outpath = Some (raw_bytes img)"
    by (simp add: s')
  have inside: "4 * (y * img_width img + x) + 4 \<le> length (raw_bytes img)"
    if "y < img_height img" "x < img_width img" for x y
  proof -
    have "Suc (y * img_width img + x) \<le> img_height img * img_width img"
      using that pixel_index_less [of x "img_width img" y "img_height img"] by simp
    then have "4 * Suc (y * img_width img + x) \<le> 4 * (img_height img * img_width img)"
      by (rule mult_le_mono2)
    then show ?thesis
      by (simp add: length_raw_bytes mult.commute)
  qed
  show ?thesis
    using img out write_rows_all [of img] inside raw_bytes_chunk [of _ img]
    by auto
qed

theorem row_major_layout_witness:
  "fst (convert toy_pillow ''grid.toy'' ''out.raw'' None None toy_world) = Returned \<and>
   (\<exists>bs. files (snd (convert toy_pillow ''grid.toy'' ''out.raw'' None None toy_world))
           ''out.raw'' = Some bs \<and>
         take 4 (drop (4 * (0 * 2 + 1)) bs) = [6, 5, 4, 0] \<and>
         take 4 (drop (4 * (1 * 2 + 0)) bs) = [9, 8, 7, 0])"
proof -
  let ?run = "convert toy_pillow ''grid.toy'' ''out.raw'' None None toy_world"
  have run: "?run = (Returned, snd ?run)"
    by (rule run_collapse [OF toy_run_grid])
  from row_major_layout [OF run] obtain bs where
    bs: "files (snd ?run) ''out.raw'' = Some bs"
    by blast
  then have "bs = [3, 2, 1, 0, 6, 5, 4, 0, 9, 8, 7, 0, 12, 11, 10, 0]"
    using toy_run_grid_file by simp
  then have "take 4 (drop (4 * (0 * 2 + 1)) bs) = [6, 5, 4, 0] \<and>
             take 4 (drop (4 * (1 * 2 + 0)) bs) = [9, 8, 7, 0]"
    by simp
  then show ?thesis
    using toy_run_grid bs by blast
qed

text \<open>
  C2. A pixel with channels \<open>R\<close>, \<open>G\<close>, \<open>B\<close> in 0 to 255 is written as the value
  \<open>(R << 16) | (G << 8) | B\<close> packed little-endian, that is as the bytes \<open>B\<close>, \<open>G\<close>,
  \<open>R\<close>, \<open>0\<close>; every word of a completed file is such a word, in pixel order. A red pixel
  (255, 0, 0) is the bytes 00 00 FF 00, and a 2 by 2 all-red image converted without
  resize arguments gives exactly 16 bytes, four such words.
\<close>

theorem xrgb_little_endian:
  "(0 \<le> r \<and> r \<le> 255 \<and> 0 \<le> g \<and> g \<le> 255 \<and> 0 \<le> b \<and> b \<le> 255 \<longrightarrow>
      struct_pack_I (xrgb8888 r g b) =
        Inr [word_of_int b, word_of_int g, word_of_int r, 0]) \<and>
   struct_pack_I (xrgb8888 255 0 0) = Inr [0, 0, 255, 0] \<and>
   (convert pil inpath outpath width height s = (Returned, s') \<longrightarrow>
      (\<exists>img. load_image pil s inpath width height = Inr img \<and>
         files s' outpath =
           Some (concat (map (\<lambda>(r, g, b). [b, g, r, 0]) (pixels_of img))) \<and>
         (\<forall>(r, g, b) \<in> set (pixels_of img).
            struct_pack_I (xrgb8888 (uint r) (uint g) (uint b)) = Inr [b, g, r, 0]))) \<and>
   (files s inpath = Some content \<and> decode_RGB pil content = Inr red \<and>
    img_width red = 2 \<and> img_height red = 2 \<and>
    (\<forall>y < 2. \<forall>x < 2. img_data red x y = (255, 0, 0)) \<and> writable s outpath \<longrightarrow>
      convert pil inpath outpath None None s =
        (Returned,
         s\<lparr>files := (files s)(outpath \<mapsto>
                [0, 0, 255, 0, 0, 0, 255, 0, 0, 0, 255, 0, 0, 0, 255, 0]),
           stdout := stdout s @ [Done 2 2 outpath 16]\<rparr>))"
proof (intro conjI impI)
  assume "0 \<le> r \<and> r \<le> 255 \<and> 0 \<le> g \<and> g \<le> 255 \<and> 0 \<le> b \<and> b \<le> 255"
  then show "struct_pack_I (xrgb8888 r g b) =
               Inr [word_of_int b, word_of_int g, word_of_int r, 0]"
    by (simp add: struct_pack_channels)
next
  show "struct_pack_I (xrgb8888 255 0 0) = Inr [0, 0, 255, 0]"
    using struct_pack_channels [of 255 0 0] by simp
next
  assume "convert pil inpath outpath width height s = (Returned, s')"
  then obtain img where
    img: "load_image pil s inpath width height = Inr img" and
    s': "s' = s\<lparr>files := (files s)(outpath \<mapsto> raw_bytes img),
              stdout := stdout s @
                [Done (img_width img) (img_height img) outpath
                   (img_width img * img_height img * 4)]\<rparr>"
    by (rule convert_Returned)
  have fmt: "pixel_bytes = (\<lambda>(r, g, b). [b, g, r, 0])"
    by (auto simp add: pixel_bytes_def fun_eq_iff)
  have "files s' outpath =
          Some (concat (map (\<lambda>(r, g, b). [b, g, r, 0]) (pixels_of img)))"
    by (simp add: s' raw_bytes_def fmt)
  moreover have "\<forall>(r, g, b) \<in> set (pixels_of img).
      struct_pack_I (xrgb8888 (uint r) (uint g) (uint b)) = Inr [b, g, r, 0]"
    by (auto simp add: struct_pack_pixel pixel_bytes_def)
  ultimately show "\<exists>img. load_image pil s inpath width height = Inr img \<and>
         files s' outpath =
           Some (concat (map (\<lambda>(r, g, b). [b, g, r, 0]) (pixels_of img))) \<and>
         (\<forall>(r, g, b) \<in> set (pixels_of img).
            struct_pack_I (xrgb8888 (uint r) (uint g) (uint b)) = Inr [b, g, r, 0])"
    using img by blast
next
  assume a: "files s inpath = Some content \<and> decode_RGB pil content = Inr red \<and>
    img_width red = 2 \<and> img_height red = 2 \<and>
    (\<forall>y < 2. \<forall>x < 2. img_data red x y = (255, 0, 0)) \<and> writable s outpath"
  then have load: "load_image pil s inpath None None = Inr red"
    by (simp add: load_image_def Image_open_RGB_def)
  have two: "[0..<2] = [0, Suc 0]"
    by (simp add: upt_rec)
  have px: "img_data red 0 0 = (255, 0, 0)" "img_data red (Suc 0) 0 = (255, 0, 0)"
    "img_data red 0 (Suc 0) = (255, 0, 0)" "img_data red (Suc 0) (Suc 0) = (255, 0, 0)"
    using a by simp_all
  have "raw_bytes red = [0, 0, 255, 0, 0, 0, 255, 0, 0, 0, 255, 0, 0, 0, 255, 0]"
    using a by (simp add: raw_bytes_def pixels_of_def row_of_def two px pixel_bytes_def)
  then show "convert pil inpath outpath None None s =
        (Returned,
         s\<lparr>files := (files s)(outpath \<mapsto>
                [0, 0, 255, 0, 0, 0, 255, 0, 0, 0, 255, 0, 0, 0, 255, 0]),
           stdout := stdout s @ [Done 2 2 outpath 16]\<rparr>)"
    using a by (simp add: convert_eq load)
qed

theorem xrgb_little_endian_witness:
  "struct_pack_I (xrgb8888 18 52 86) = Inr [86, 52, 18, 0] \<and>
   fst (convert toy_pillow ''red.toy'' ''out.raw'' None None toy_world) = Returned \<and>
   files (snd (convert toy_pillow ''red.toy'' ''out.raw'' None None toy_world)) ''out.raw'' =
     Some [0, 0, 255, 0, 0, 0, 255, 0, 0, 0, 255, 0, 0, 0, 255, 0] \<and>
   stdout (snd (convert toy_pillow ''red.toy'' ''out.raw'' None None toy_world)) =
     [Done 2 2 ''out.raw'' 16]"
proof -
  let ?img = "\<lparr>img_width = 2, img_height = 2,
               img_data = (\<lambda>x y. (drop 2 red2x2 ! (3 * (y * unat (2 :: byte) + x)),
                                    drop 2 red2x2 ! (3 * (y * unat (2 :: byte) + x) + 1),
                                    drop 2 red2x2 ! (3 * (y * unat (2 :: byte) + x) + 2)))\<rparr>"
  have dec: "decode_RGB toy_pillow red2x2 = Inr ?img"
    by (simp add: toy_pillow_def toy_decode_def red2x2_def)
  have px: "\<forall>y < 2. \<forall>x < 2. img_data ?img x y = (255, 0, 0)"
    by (auto simp add: red2x2_def less_2_cases_iff)
  have hyp: "files toy_world ''red.toy'' = Some red2x2 \<and>
      decode_RGB toy_pillow red2x2 = Inr ?img \<and>
      img_width ?img = 2 \<and> img_height ?img = 2 \<and>
      (\<forall>y < 2. \<forall>x < 2. img_data ?img x y = (255, 0, 0)) \<and>
      writable toy_world ''out.raw''"
    using dec px by (simp add: toy_world_def)
  have ch: "(0 :: int) \<le> 18 \<and> (18 :: int) \<le> 255 \<and> (0 :: int) \<le> 52 \<and> (52 :: int) \<le> 255 \<and>
            (0 :: int) \<le> 86 \<and> (86 :: int) \<le> 255"
    by simp
  note t = xrgb_little_endian [of 18 52 86 toy_pillow "''red.toy''" "''out.raw''" None None
      toy_world "snd (convert toy_pillow ''red.toy'' ''out.raw'' None None toy_world)"
      red2x2 ?img]
  from t ch have 1: "struct_pack_I (xrgb8888 18 52 86) = Inr [86, 52, 18, 0]"
    by simp
  from t hyp have 2: "convert toy_pillow ''red.toy'' ''out.raw'' None None toy_world =
      (Returned,
       toy_world\<lparr>files := (files toy_world)(''out.raw'' \<mapsto>
              [0, 0, 255, 0, 0, 0, 255, 0, 0, 0, 255, 0, 0, 0, 255, 0]),
         stdout := stdout toy_world @ [Done 2 2 ''out.raw'' 16]\<rparr>)"
    by blast
  show ?thesis
    unfolding 2 using 1 by (simp add: toy_world_def)
qed

text \<open>
  C7. Round trip: a completed output file, read back as little-endian 32-bit words, is
  exactly \<open>W * H\<close> words with nothing left over; masking each word to its low 24 bits
  and taking the three channel bytes gives back the pixels of the (possibly resized)
  image in row-major order, and the top byte of every word is zero.
\<close>

theorem round_trip:
  assumes "convert pil inpath outpath width height s = (Returned, s')"
  shows "\<exists>img bs. load_image pil s inpath width height = Inr img \<and>
           files s' outpath = Some bs \<and>
           length bs = 4 * length (read_words bs) \<and>
           length (read_words bs) = img_width img * img_height img \<and>
           map (\<lambda>v. rgb_of_word (v AND 0xFFFFFF)) (read_words bs) = pixels_of img \<and>
           (\<forall>y < img_height img. \<forall>x < img_width img.
              rgb_of_word (read_words bs ! (y * img_width img + x) AND 0xFFFFFF) =
                img_data img x y) \<and>
           (\<forall>v \<in> set (read_words bs). drop_bit 24 v = 0)"
proof -
  from assms obtain img where
    img: "load_image pil s inpath width height = Inr img" and
    s': "s' = s\<lparr>files := (files s)(outpath \<mapsto> raw_bytes img),
              stdout := stdout s @
                [Done (img_width img) (img_height img) outpath
                   (img_width img * img_height img * 4)]\<rparr>"
    by (rule convert_Returned)
  let ?bs = "raw_bytes img"
  have out: "files s' outpath = Some ?bs"
    by (simp add: s')
  have len: "length ?bs = 4 * length (read_words ?bs)"
    by (simp add: length_raw_bytes length_read_words_raw)
  have rt: "map (\<lambda>v. rgb_of_word (v AND 0xFFFFFF)) (read_words ?bs) = pixels_of img"
    by (rule read_words_raw_rgb)
  have pix: "rgb_of_word (read_words ?bs ! (y * img_width img + x) AND 0xFFFFFF) =
              img_data img x y"
    if "y < img_height img" "x < img_width img" for x y
  proof -
    have i: "y * img_width img + x < length (read_words ?bs)"
      using that pixel_index_less [of x "img_width img" y "img_height img"]
      by (simp add: length_read_words_raw mult.commute)
    have "map (\<lambda>v. rgb_of_word (v AND 0xFFFFFF)) (read_words ?bs) ! (y * img_width img + x) =
            pixels_of img ! (y * img_width img + x)"
      by (simp only: rt)
    then show ?thesis
      using i that by (simp add: nth_pixels_of)
  qed
  show ?thesis
    using img out len length_read_words_raw [of img] rt pix read_words_raw_top [of _ img]
    by blast
qed

theorem round_trip_witness:
  "fst (convert toy_pillow ''grid.toy'' ''out.raw'' None None toy_world) = Returned \<and>
   (\<exists>bs. files (snd (convert toy_pillow ''grid.toy'' ''out.raw'' None None toy_world))
           ''out.raw'' = Some bs \<and>
         length bs = 4 * length (read_words bs) \<and>
         map (\<lambda>v. rgb_of_word (v AND 0xFFFFFF)) (read_words bs) =
           [(1, 2, 3), (4, 5, 6), (7, 8, 9), (10, 11, 12)])"
proof -
  let ?run = "convert toy_pillow ''grid.toy'' ''out.raw'' None None toy_world"
  have run: "?run = (Returned, snd ?run)"
    by (rule run_collapse [OF toy_run_grid])
  from round_trip [OF run] obtain bs where
    bs: "files (snd ?run) ''out.raw'' = Some bs" and
    len: "length bs = 4 * length (read_words bs)"
    by blast
  from bs have "bs = [3, 2, 1, 0, 6, 5, 4, 0, 9, 8, 7, 0, 12, 11, 10, 0]"
    using toy_run_grid_file by simp
  moreover have "map (\<lambda>v. rgb_of_word (v AND 0xFFFFFF))
      (read_words [3, 2, 1, 0, 6, 5, 4, 0, 9, 8, 7, 0, 12, 11, 10, 0]) =
      [(1, 2, 3), (4, 5, 6), (7, 8, 9), (10, 11, 12)]"
    by code_simp
  ultimately have m: "map (\<lambda>v. rgb_of_word (v AND 0xFFFFFF)) (read_words bs) =
      [(1, 2, 3), (4, 5, 6), (7, 8, 9), (10, 11, 12)]"
    by (simp only:)
  show ?thesis
  proof (intro conjI exI)
    show "fst ?run = Returned" by (rule toy_run_grid)
    show "files (snd ?run) ''out.raw'' = Some bs" by (rule bs)
    show "length bs = 4 * length (read_words bs)" by (rule len)
    show "map (\<lambda>v. rgb_of_word (v AND 0xFFFFFF)) (read_words bs) =
      [(1, 2, 3), (4, 5, 6), (7, 8, 9), (10, 11, 12)]" by (rule m)
  qed
qed

text \<open>
  C8. Determinism: the bytes written depend only on the content of the input file and on
  the arguments. Two completed runs on the same input content and the same (or absent)
  target size leave byte-identical output files, whatever else differs between the two
  worlds, resize included; and running the same conversion again on the world the first
  run left (input and output being different paths) completes and leaves the files as
  they are. The decoder and the resampler are fixed functions of their arguments.
\<close>

theorem convert_deterministic:
  "(files s1 inpath = files s2 inpath \<and>
    convert pil inpath outpath width height s1 = (Returned, s1') \<and>
    convert pil inpath outpath width height s2 = (Returned, s2') \<longrightarrow>
      files s1' outpath = files s2' outpath) \<and>
   (inpath \<noteq> outpath \<and> convert pil inpath outpath width height s = (Returned, s') \<longrightarrow>
      (\<exists>s''. convert pil inpath outpath width height s' = (Returned, s'') \<and>
             files s'' = files s'))"
proof (intro conjI impI)
  assume a: "files s1 inpath = files s2 inpath \<and>
    convert pil inpath outpath width height s1 = (Returned, s1') \<and>
    convert pil inpath outpath width height s2 = (Returned, s2')"
  then have same: "load_image pil s1 inpath width height = load_image pil s2 inpath width height"
    by (intro load_image_cong) simp
  from a have r1: "convert pil inpath outpath width height s1 = (Returned, s1')"
    and r2: "convert pil inpath outpath width height s2 = (Returned, s2')"
    by simp_all
  from r1 obtain img1 where
    1: "load_image pil s1 inpath width height = Inr img1"
       "files s1' outpath = Some (raw_bytes img1)"
    by (rule convert_Returned_file)
  from r2 obtain img2 where
    2: "load_image pil s2 inpath width height = Inr img2"
       "files s2' outpath = Some (raw_bytes img2)"
    by (rule convert_Returned_file)
  from same 1 2 show "files s1' outpath = files s2' outpath"
    by simp
next
  assume a: "inpath \<noteq> outpath \<and> convert pil inpath outpath width height s = (Returned, s')"
  then have "convert pil inpath outpath width height s = (Returned, s')"
    by simp
  then obtain img where
    img: "load_image pil s inpath width height = Inr img" and
    w: "writable s outpath" and
    s': "s' = s\<lparr>files := (files s)(outpath \<mapsto> raw_bytes img),
              stdout := stdout s @
                [Done (img_width img) (img_height img) outpath
                   (img_width img * img_height img * 4)]\<rparr>"
    by (rule convert_Returned)
  have "files s' inpath = files s inpath"
    using a by (simp add: s')
  then have "load_image pil s' inpath width height = load_image pil s inpath width height"
    by (rule load_image_cong)
  then have "load_image pil s' inpath width height = Inr img"
    using img by simp
  moreover have "writable s' outpath"
    using w by (simp add: s')
  moreover have "(files s')(outpath \<mapsto> raw_bytes img) = files s'"
    by (simp add: s')
  ultimately show "\<exists>s''. convert pil inpath outpath width height s' = (Returned, s'') \<and>
             files s'' = files s'"
    by (simp add: convert_eq)
qed

theorem convert_deterministic_witness:
  "fst (convert toy_pillow ''dot.toy'' ''out.raw'' (Some 3) (Some 1) toy_world) = Returned \<and>
   fst (convert toy_pillow ''dot.toy'' ''out.raw'' (Some 3) (Some 1)
          (toy_world\<lparr>files := (files toy_world)(''out.raw'' \<mapsto> [7, 7]),
                      stdout := [Usage ''earlier'']\<rparr>)) = Returned \<and>
   files (snd (convert toy_pillow ''dot.toy'' ''out.raw'' (Some 3) (Some 1)
          (toy_world\<lparr>files := (files toy_world)(''out.raw'' \<mapsto> [7, 7]),
                      stdout := [Usage ''earlier'']\<rparr>))) ''out.raw'' =
     Some [86, 52, 18, 0, 86, 52, 18, 0, 86, 52, 18, 0]"
proof -
  let ?other = "toy_world\<lparr>files := (files toy_world)(''out.raw'' \<mapsto> [7, 7]),
                          stdout := [Usage ''earlier'']\<rparr>"
  let ?run1 = "convert toy_pillow ''dot.toy'' ''out.raw'' (Some 3) (Some 1) toy_world"
  let ?run2 = "convert toy_pillow ''dot.toy'' ''out.raw'' (Some 3) (Some 1) ?other"
  have same: "files toy_world ''dot.toy'' = files ?other ''dot.toy''"
    by simp
  have 1: "?run1 = (Returned, snd ?run1)"
    by (rule run_collapse [OF toy_run_wide])
  have 2: "?run2 = (Returned, snd ?run2)"
    by (rule run_collapse [OF toy_run_wide_again])
  have "files (snd ?run1) ''out.raw'' = files (snd ?run2) ''out.raw''"
    by (rule convert_deterministic [THEN conjunct1, THEN mp, OF conjI [OF same conjI [OF 1 2]]])
  then show ?thesis
    using toy_run_wide toy_run_wide_again toy_run_wide_file by simp
qed

text \<open>
  C9. When both sizes are given and one of them is 0, \<open>convert\<close> behaves exactly as
  without sizes: the truth test fails, nothing is resized and nothing is raised for it,
  and on a readable image and a writable output the run completes with the source
  image's own dimensions.
\<close>

theorem zero_dimension_skips_resize:
  assumes "w = 0 \<or> h = 0"
  shows "convert pil inpath outpath (Some w) (Some h) s =
           convert pil inpath outpath None None s \<and>
         (Image_open_RGB pil s inpath = Inr src \<and> writable s outpath \<longrightarrow>
            convert pil inpath outpath (Some w) (Some h) s =
              (Returned,
               s\<lparr>files := (files s)(outpath \<mapsto> raw_bytes src),
                 stdout := stdout s @
                   [Done (img_width src) (img_height src) outpath
                      (img_width src * img_height src * 4)]\<rparr>))"
  using assms
  by (simp add: convert_eq load_image_zero load_image_source)

theorem zero_dimension_skips_resize_witness:
  "fst (convert toy_pillow ''dot.toy'' ''out.raw'' (Some 7) (Some 0) toy_world) = Returned \<and>
   stdout (snd (convert toy_pillow ''dot.toy'' ''out.raw'' (Some 7) (Some 0) toy_world)) =
     [Done 1 1 ''out.raw'' 4]"
proof -
  have z: "(7 :: int) = 0 \<or> (0 :: int) = 0"
    by simp
  have "convert toy_pillow ''dot.toy'' ''out.raw'' (Some 7) (Some 0) toy_world =
          convert toy_pillow ''dot.toy'' ''out.raw'' None None toy_world"
    using zero_dimension_skips_resize [OF z] by blast
  moreover have "stdout (snd (convert toy_pillow ''dot.toy'' ''out.raw'' None None toy_world)) =
      [Done 1 1 ''out.raw'' 4]"
    by code_simp
  ultimately show ?thesis
    using toy_run_dot by simp
qed

text \<open>
  C10. With all four positional arguments present, a width or height text that
  \<^verbatim>\<open>int()\<close> rejects ends the process with an uncaught \<^verbatim>\<open>ValueError\<close> and a non-zero
  status before \<open>convert\<close> is called: no file is created or changed and the script
  has printed nothing.
\<close>

theorem bad_dimension_text:
  assumes "4 < length argv"
    and "py_int (argv ! 3) = None \<or> py_int (argv ! 4) = None"
  shows "script py_int (Some pil) argv s = (Raised ValueError, s) \<and>
         exit_status (fst (script py_int (Some pil) argv s)) \<noteq> 0"
proof -
  from assms(1) have n: "\<not> length argv < 3"
    by simp
  have "script py_int (Some pil) argv s = (Raised ValueError, s)"
  proof (cases "py_int (argv ! 3)")
    case None
    then show ?thesis
      using assms(1) n by (simp add: script_def main_def int_arg_def)
  next
    case (Some w)
    with assms(2) have "py_int (argv ! 4) = None"
      by simp
    then show ?thesis
      using assms(1) n Some by (simp add: script_def main_def int_arg_def)
  qed
  then show ?thesis
    by simp
qed

theorem bad_dimension_text_witness:
  "script toy_int (Some toy_pillow)
     [''raw_convert.py'', ''red.toy'', ''out.raw'', ''640'', ''tall''] toy_world =
     (Raised ValueError, toy_world)"
proof -
  let ?argv = "[''raw_convert.py'', ''red.toy'', ''out.raw'', ''640'', ''tall'']"
  have n: "4 < length ?argv"
    by simp
  have bad: "toy_int (?argv ! 3) = None \<or> toy_int (?argv ! 4) = None"
    by (simp add: toy_int_def)
  show ?thesis
    by (rule conjunct1 [OF bad_dimension_text [OF n bad]])
qed

text \<open>
  C6. When Pillow cannot be imported the script prints its error on standard error and
  exits with status 1 at once: whatever the arguments, nothing is written to standard
  output and no file is touched.
\<close>

theorem import_guard:
  "script py_int None argv s = (SysExit 1, s\<lparr>stderr := stderr s @ [PillowMissing]\<rparr>) \<and>
   exit_status (fst (script py_int None argv s)) = 1 \<and>
   files (snd (script py_int None argv s)) = files s \<and>
   stdout (snd (script py_int None argv s)) = stdout s"
  by (simp add: script_def)

text \<open>
  C5. With a single positional argument the script exits with status 1 and touches no
  file, but the usage line goes to standard output: standard error stays as it was. The
  claim asks for standard error, as the import guard does for its own message.
\<close>

theorem usage_on_stdout:
  "script py_int (Some pil) [''raw_convert.py'', ''input.png''] s =
     (SysExit 1, s\<lparr>stdout := stdout s @ [Usage ''raw_convert.py'']\<rparr>) \<and>
   exit_status (fst (script py_int (Some pil) [''raw_convert.py'', ''input.png''] s)) = 1 \<and>
   stderr (snd (script py_int (Some pil) [''raw_convert.py'', ''input.png''] s)) = stderr s \<and>
   files (snd (script py_int (Some pil) [''raw_convert.py'', ''input.png''] s)) = files s"
  by (simp add: script_def main_def)

text \<open>
  C4. A target size, when supplied, is a positive integer. Then resizing happens if and
  only if both sizes are supplied: the guard of line 28 holds exactly in that case.
  Without it the image written is the decoded source, with the source's dimensions. With
  it the image written is what the resampler returns for exactly \<open>(width, height)\<close>,
  and as the resampler returns an image of the size it is asked for, the output has
  exactly the requested dimensions: the summary reports them and the file holds
  \<open>width * height * 4\<close> bytes, nothing cropped and nothing padded. At the command line
  the two sizes are there if and only if more than four argument entries are present, so
  a call with input, output and a lone width converts without resize.
\<close>

theorem resize_iff_both_supplied:
  assumes pos: "(\<forall>n. width = Some n \<longrightarrow> 0 < n) \<and> (\<forall>n. height = Some n \<longrightarrow> 0 < n)"
    and resampler: "\<forall>img w h. 0 < w \<and> 0 < h \<longrightarrow>
        (\<exists>out. resize_LANCZOS pil img (w, h) = Inr out \<and>
               img_width out = nat w \<and> img_height out = nat h)"
    and src: "Image_open_RGB pil s inpath = Inr src"
    and wr: "writable s outpath"
  shows "(resize_requested width height \<longleftrightarrow> width \<noteq> None \<and> height \<noteq> None) \<and>
    (\<not> resize_requested width height \<longrightarrow>
       load_image pil s inpath width height = Inr src \<and>
       convert pil inpath outpath width height s =
         (Returned,
          s\<lparr>files := (files s)(outpath \<mapsto> raw_bytes src),
            stdout := stdout s @
              [Done (img_width src) (img_height src) outpath
                 (img_width src * img_height src * 4)]\<rparr>)) \<and>
    (resize_requested width height \<longrightarrow>
       (\<exists>w h out. width = Some w \<and> height = Some h \<and>
          resize_LANCZOS pil src (w, h) = Inr out \<and>
          load_image pil s inpath width height = Inr out \<and>
          img_width out = nat w \<and> img_height out = nat h \<and>
          convert pil inpath outpath width height s =
            (Returned,
             s\<lparr>files := (files s)(outpath \<mapsto> raw_bytes out),
               stdout := stdout s @
                 [Done (nat w) (nat h) outpath (nat w * nat h * 4)]\<rparr>) \<and>
          length (raw_bytes out) = nat w * nat h * 4)) \<and>
    (3 \<le> length argv \<and> int_arg py_int argv 3 = Inr width \<and>
     int_arg py_int argv 4 = Inr height \<longrightarrow>
       (resize_requested width height \<longleftrightarrow> 4 < length argv) \<and>
       main py_int pil argv s = convert pil (argv ! 1) (argv ! 2) width height s)"
proof (intro conjI impI)
  show guard: "resize_requested width height \<longleftrightarrow> width \<noteq> None \<and> height \<noteq> None"
    using pos by (cases width; cases height) (auto simp add: resize_requested_def)
  {
    assume no: "\<not> resize_requested width height"
    with src show skipped: "load_image pil s inpath width height = Inr src"
      by (rule load_image_skipped)
    show "convert pil inpath outpath width height s =
         (Returned,
          s\<lparr>files := (files s)(outpath \<mapsto> raw_bytes src),
            stdout := stdout s @
              [Done (img_width src) (img_height src) outpath
                 (img_width src * img_height src * 4)]\<rparr>)"
      using wr by (simp add: convert_eq skipped)
  }
  {
    assume yes: "resize_requested width height"
    with guard obtain w h where wh: "width = Some w" "height = Some h"
      by auto
    with pos have "0 < w \<and> 0 < h"
      by simp
    with resampler obtain out where
      out: "resize_LANCZOS pil src (w, h) = Inr out"
        "img_width out = nat w" "img_height out = nat h"
      by blast
    have load: "load_image pil s inpath width height = Inr out"
      using load_image_resized [OF src, of w h] yes out(1) by (simp add: wh)
    have run: "convert pil inpath outpath width height s =
            (Returned,
             s\<lparr>files := (files s)(outpath \<mapsto> raw_bytes out),
               stdout := stdout s @
                 [Done (nat w) (nat h) outpath (nat w * nat h * 4)]\<rparr>)"
      using wr out(2,3) by (simp add: convert_eq load)
    have len: "length (raw_bytes out) = nat w * nat h * 4"
      using out(2,3) by (simp add: length_raw_bytes)
    show "\<exists>w h out. width = Some w \<and> height = Some h \<and>
          resize_LANCZOS pil src (w, h) = Inr out \<and>
          load_image pil s inpath width height = Inr out \<and>
          img_width out = nat w \<and> img_height out = nat h \<and>
          convert pil inpath outpath width height s =
            (Returned,
             s\<lparr>files := (files s)(outpath \<mapsto> raw_bytes out),
               stdout := stdout s @
                 [Done (nat w) (nat h) outpath (nat w * nat h * 4)]\<rparr>) \<and>
          length (raw_bytes out) = nat w * nat h * 4"
      using wh out load run len by blast
  }
  {
    assume cli: "3 \<le> length argv \<and> int_arg py_int argv 3 = Inr width \<and>
      int_arg py_int argv 4 = Inr height"
    show "resize_requested width height \<longleftrightarrow> 4 < length argv"
    proof (cases "4 < length argv")
      case True
      with cli obtain n m where "width = Some n" "height = Some m"
        using int_arg_long [of argv py_int 3 width] int_arg_long [of argv py_int 4 height]
        by blast
      with guard True show ?thesis
        by simp
    next
      case False
      then have "int_arg py_int argv 3 = Inr None"
        by (intro int_arg_short) simp
      with cli have "width = None"
        by simp
      with guard False show ?thesis
        by simp
    qed
    from cli show "main py_int pil argv s = convert pil (argv ! 1) (argv ! 2) width height s"
      by (simp add: main_def)
  }
qed

theorem resize_iff_both_supplied_witness:
  "resize_requested (Some 3) (Some 2) \<and>
   stdout (snd (main toy_int toy_pillow
                  [''raw_convert.py'', ''dot.toy'', ''out.raw'', ''3'', ''2''] toy_world)) =
     [Done 3 2 ''out.raw'' 24] \<and>
   \<not> resize_requested None None \<and>
   stdout (snd (main toy_int toy_pillow
                  [''raw_convert.py'', ''dot.toy'', ''out.raw'', ''3''] toy_world)) =
     [Done 1 1 ''out.raw'' 4]"
proof -
  let ?a4 = "[''raw_convert.py'', ''dot.toy'', ''out.raw'', ''3'']"
  let ?a5 = "[''raw_convert.py'', ''dot.toy'', ''out.raw'', ''3'', ''2'']"
  obtain src where src: "Image_open_RGB toy_pillow toy_world ''dot.toy'' = Inr src"
    and sz: "img_width src = 1" "img_height src = 1"
    by (simp add: Image_open_RGB_def toy_world_def toy_pillow_def toy_decode_def dot1x1_def)
  have wr: "writable toy_world ''out.raw''"
    by (simp add: toy_world_def)
  have out0: "stdout toy_world = []"
    by (simp add: toy_world_def)
  have res: "\<forall>img w h. 0 < w \<and> 0 < h \<longrightarrow>
        (\<exists>out. resize_LANCZOS toy_pillow img (w, h) = Inr out \<and>
               img_width out = nat w \<and> img_height out = nat h)"
    by (simp add: toy_pillow_def toy_resize_def)
  have pos5: "(\<forall>n. Some (3 :: int) = Some n \<longrightarrow> 0 < n) \<and>
              (\<forall>n. Some (2 :: int) = Some n \<longrightarrow> 0 < n)"
    by simp
  have pos4: "(\<forall>n. (None :: int option) = Some n \<longrightarrow> 0 < n) \<and>
              (\<forall>n. (None :: int option) = Some n \<longrightarrow> 0 < n)"
    by simp
  have cli5: "3 \<le> length ?a5 \<and> int_arg toy_int ?a5 3 = Inr (Some 3) \<and>
              int_arg toy_int ?a5 4 = Inr (Some 2)"
    by (simp add: int_arg_def toy_int_def)
  have cli4: "3 \<le> length ?a4 \<and> int_arg toy_int ?a4 3 = Inr None \<and>
              int_arg toy_int ?a4 4 = Inr None"
    by (simp add: int_arg_def)
  note large = resize_iff_both_supplied [where width = "Some 3" and height = "Some 2"
      and pil = toy_pillow and s = toy_world and inpath = "''dot.toy''"
      and outpath = "''out.raw''" and src = src and argv = ?a5 and py_int = toy_int,
      OF pos5 res src wr]
  note small = resize_iff_both_supplied [where width = None and height = None
      and pil = toy_pillow and s = toy_world and inpath = "''dot.toy''"
      and outpath = "''out.raw''" and src = src and argv = ?a4 and py_int = toy_int,
      OF pos4 res src wr]
  have yes: "resize_requested (Some 3) (Some 2)"
    using large [THEN conjunct1] by simp
  have no: "\<not> resize_requested None None"
    using small [THEN conjunct1] by simp
  from large [THEN conjunct2, THEN conjunct2, THEN conjunct1, THEN mp, OF yes]
  obtain w h out where
    wh: "Some (3 :: int) = Some w" "Some (2 :: int) = Some h" and
    run5: "convert toy_pillow ''dot.toy'' ''out.raw'' (Some 3) (Some 2) toy_world =
      (Returned,
       toy_world\<lparr>files := (files toy_world)(''out.raw'' \<mapsto> raw_bytes out),
         stdout := stdout toy_world @ [Done (nat w) (nat h) ''out.raw'' (nat w * nat h * 4)]\<rparr>)"
    by blast
  have main5: "main toy_int toy_pillow ?a5 toy_world =
      convert toy_pillow ''dot.toy'' ''out.raw'' (Some 3) (Some 2) toy_world"
    using large [THEN conjunct2, THEN conjunct2, THEN conjunct2, THEN mp, OF cli5,
        THEN conjunct2]
    by simp
  have 5: "stdout (snd (main toy_int toy_pillow ?a5 toy_world)) = [Done 3 2 ''out.raw'' 24]"
    unfolding main5 run5 using wh by (simp add: out0)
  have run4: "convert toy_pillow ''dot.toy'' ''out.raw'' None None toy_world =
      (Returned,
       toy_world\<lparr>files := (files toy_world)(''out.raw'' \<mapsto> raw_bytes src),
         stdout := stdout toy_world @
           [Done (img_width src) (img_height src) ''out.raw''
              (img_width src * img_height src * 4)]\<rparr>)"
    by (rule small [THEN conjunct2, THEN conjunct1, THEN mp, OF no, THEN conjunct2])
  have main4: "main toy_int toy_pillow ?a4 toy_world =
      convert toy_pillow ''dot.toy'' ''out.raw'' None None toy_world"
    using small [THEN conjunct2, THEN conjunct2, THEN conjunct2, THEN mp, OF cli4,
        THEN conjunct2]
    by simp
  have 4: "stdout (snd (main toy_int toy_pillow ?a4 toy_world)) = [Done 1 1 ''out.raw'' 4]"
    unfolding main4 run4 by (simp add: out0 sz)
  from yes 5 no 4 show ?thesis
    by (intro conjI)
qed

end
